theory Spec2Isabelle
  imports Complex_Main "HOL-Library.Word"
begin

unbundle bit_operations_syntax

section \<open>Values\<close>

text \<open>
  PCM samples are Kotlin \<open>Short\<close> / Swift \<open>Int16\<close> values, bytes are 8-bit words.
\<close>

type_synonym short = "16 word"
type_synonym byte = "8 word"

text \<open>
  \<open>Double\<close> and \<open>Float\<close> values. A finite value is carried as the real number it
  denotes; the IEEE special values that the code can produce are separate constructors.
  Rounding of finite results and the sign of zero are not represented: the sum of squares
  of 16-bit samples is an integer below \<open>2^53\<close> for any block shorter than \<open>2^23\<close>
  samples and is therefore exact in a \<open>Double\<close>.
\<close>

datatype fp = NaN | PInf | NInf | Fin real

fun fp_div :: "fp \<Rightarrow> fp \<Rightarrow> fp" where
  "fp_div (Fin x) (Fin y) =
     (if y \<noteq> 0 then Fin (x / y)
      else if x = 0 then NaN
      else if 0 < x then PInf else NInf)"
| "fp_div PInf (Fin y) = (if 0 \<le> y then PInf else NInf)"
| "fp_div NInf (Fin y) = (if 0 \<le> y then NInf else PInf)"
| "fp_div (Fin x) PInf = Fin 0"
| "fp_div (Fin x) NInf = Fin 0"
| "fp_div _ _ = NaN"

fun fp_sqrt :: "fp \<Rightarrow> fp" where
  "fp_sqrt (Fin x) = (if x < 0 then NaN else Fin (sqrt x))"
| "fp_sqrt PInf = PInf"
| "fp_sqrt _ = NaN"

text \<open>The IEEE comparison \<open><\<close>: false as soon as one side is NaN.\<close>

fun fp_less :: "fp \<Rightarrow> fp \<Rightarrow> bool" where
  "fp_less (Fin x) (Fin y) = (x < y)"
| "fp_less NaN _ = False"
| "fp_less _ NaN = False"
| "fp_less NInf NInf = False"
| "fp_less NInf _ = True"
| "fp_less PInf _ = False"
| "fp_less _ PInf = True"
| "fp_less _ _ = False"

text \<open>
  Kotlin's \<open>Float.coerceIn(minimumValue, maximumValue)\<close>:
  \<^verbatim>\<open>if (this < minimumValue) return minimumValue
  if (this > maximumValue) return maximumValue
  return this\<close>
\<close>

definition coerceIn :: "fp \<Rightarrow> fp \<Rightarrow> fp \<Rightarrow> fp" where
  "coerceIn this minimumValue maximumValue =
     (if fp_less this minimumValue then minimumValue
      else if fp_less maximumValue this then maximumValue
      else this)"

text \<open>
  Swift's global \<open>min\<close> and \<open>max\<close> on a \<open>Comparable\<close>
  (\<^verbatim>\<open>min(x, y) = y < x ? y : x\<close>, \<^verbatim>\<open>max(x, y) = y >= x ? y : x\<close>) and the
  extension \<^verbatim>\<open>Float.clamped(to:)\<close> of the iOS module, which is
  \<^verbatim>\<open>min(max(self, range.lowerBound), range.upperBound)\<close>.
\<close>

definition swift_min :: "fp \<Rightarrow> fp \<Rightarrow> fp" where
  "swift_min x y = (if fp_less y x then y else x)"

definition swift_max :: "fp \<Rightarrow> fp \<Rightarrow> fp" where
  "swift_max x y = (if fp_less y x \<or> x = NaN \<or> y = NaN then x else y)"

definition clamped :: "fp \<Rightarrow> fp \<Rightarrow> fp \<Rightarrow> fp" where
  "clamped self lowerBound upperBound = swift_min (swift_max self lowerBound) upperBound"

text \<open>Exceptions of the Kotlin runtime that the block helpers can raise.\<close>

datatype exn = ArrayIndexOutOfBounds | IllegalArgument

section \<open>LoudnessMeter (Android): \<open>calculateRMS\<close>\<close>

text \<open>
  \<^verbatim>\<open>buffer[i] * buffer[i]\<close>: both operands are widened from \<open>Short\<close> to \<open>Int\<close> and
  multiplied as 32-bit integers.
\<close>

definition squareInt :: "short \<Rightarrow> int" where
  "squareInt s = sint ((scast s :: 32 word) * (scast s :: 32 word))"

text \<open>
  \<^verbatim>\<open>for (i in 0 until readSize) { sum += buffer[i] * buffer[i] }\<close>
  over the list of indices still to visit, \<open>acc\<close> being the running \<open>sum\<close>; an index
  past the array raises.
\<close>

fun sumSquares :: "short list \<Rightarrow> nat list \<Rightarrow> real \<Rightarrow> exn + real" where
  "sumSquares buffer [] acc = Inr acc"
| "sumSquares buffer (i # is) acc =
     (if i < length buffer
      then sumSquares buffer is (acc + real_of_int (squareInt (buffer ! i)))
      else Inl ArrayIndexOutOfBounds)"

definition calculateRMS :: "short list \<Rightarrow> int \<Rightarrow> exn + fp" where
  "calculateRMS buffer readSize =
     (case sumSquares buffer [0..<nat readSize] 0 of
        Inl e \<Rightarrow> Inl e
      | Inr acc \<Rightarrow>
          (let mean = fp_div (Fin acc) (Fin (real_of_int readSize));
               rms = fp_sqrt mean
           in Inr (coerceIn (fp_div rms (Fin 32767)) (Fin 0) (Fin 1))))"

section \<open>FrameEncoder\<close>

subsection \<open>Base64 text encoding\<close>

text \<open>
  Modelled from the spec: the text encoding itself is the platform's
  (\<^verbatim>\<open>android.util.Base64.encodeToString(_, NO_WRAP)\<close>,
  \<^verbatim>\<open>Data.base64EncodedString()\<close>) and its inverse lives with the consumer; neither is
  part of the sources. The spec fixes it as the standard text-safe encoding, base64
  without line wrapping: three bytes become four characters of the alphabet
  \<open>A-Z a-z 0-9 + /\<close>, and a final group of one or two bytes is padded with \<open>=\<close>.
\<close>

definition b64char :: "nat \<Rightarrow> char" where
  "b64char n =
     (if n < 26 then char_of (65 + n)
      else if n < 52 then char_of (71 + n)
      else if n < 62 then char_of (n - 4)
      else if n = 62 then CHR ''+'' else CHR ''/'')"

definition b64val :: "char \<Rightarrow> nat option" where
  "b64val c =
     (let k = (of_char c :: nat) in
      if 65 \<le> k \<and> k \<le> 90 then Some (k - 65)
      else if 97 \<le> k \<and> k \<le> 122 then Some (k - 71)
      else if 48 \<le> k \<and> k \<le> 57 then Some (k + 4)
      else if k = 43 then Some 62
      else if k = 47 then Some 63
      else None)"

fun base64_encode :: "byte list \<Rightarrow> string" where
  "base64_encode [] = []"
| "base64_encode [a] =
     [b64char (unat a div 4), b64char ((unat a mod 4) * 16), CHR ''='', CHR ''='']"
| "base64_encode [a, b] =
     [b64char (unat a div 4), b64char ((unat a mod 4) * 16 + unat b div 16),
      b64char ((unat b mod 16) * 4), CHR ''='']"
| "base64_encode (a # b # c # rest) =
     [b64char (unat a div 4), b64char ((unat a mod 4) * 16 + unat b div 16),
      b64char ((unat b mod 16) * 4 + unat c div 64), b64char (unat c mod 64)]
     @ base64_encode rest"

fun base64_decode :: "string \<Rightarrow> byte list option" where
  "base64_decode [] = Some []"
| "base64_decode (c1 # c2 # c3 # c4 # rest) =
     (if rest = [] \<and> c4 = CHR ''='' then
        (if c3 = CHR ''='' then
           (case (b64val c1, b64val c2) of
              (Some p, Some q) \<Rightarrow> Some [of_nat (p * 4 + q div 16)]
            | _ \<Rightarrow> None)
         else
           (case (b64val c1, b64val c2, b64val c3) of
              (Some p, Some q, Some r) \<Rightarrow>
                Some [of_nat (p * 4 + q div 16), of_nat ((q mod 16) * 16 + r div 4)]
            | _ \<Rightarrow> None))
      else
        (case (b64val c1, b64val c2, b64val c3, b64val c4) of
           (Some p, Some q, Some r, Some t) \<Rightarrow>
             (case base64_decode rest of
                Some bs \<Rightarrow>
                  Some ([of_nat (p * 4 + q div 16), of_nat ((q mod 16) * 16 + r div 4),
                         of_nat ((r mod 4) * 64 + t)] @ bs)
              | None \<Rightarrow> None)
         | _ \<Rightarrow> None))"
| "base64_decode _ = None"

subsection \<open>Android: \<open>shortArrayToBase64\<close>\<close>

text \<open>
  \<^verbatim>\<open>byteBuffer.order(LITTLE_ENDIAN); byteBuffer.putShort(s)\<close> appends the low byte, then
  the high byte.
\<close>

definition putShort :: "byte list \<Rightarrow> short \<Rightarrow> byte list" where
  "putShort bytes s = bytes @ [ucast s, ucast (drop_bit 8 s)]"

fun putShorts :: "short list \<Rightarrow> nat list \<Rightarrow> byte list \<Rightarrow> exn + byte list" where
  "putShorts buffer [] bytes = Inr bytes"
| "putShorts buffer (i # is) bytes =
     (if i < length buffer
      then putShorts buffer is (putShort bytes (buffer ! i))
      else Inl ArrayIndexOutOfBounds)"

text \<open>
  \<^verbatim>\<open>ByteBuffer.allocate(readSize * 2)\<close> raises on a negative capacity; the loop then fills
  the buffer completely, so \<^verbatim>\<open>byteBuffer.array()\<close> is the bytes written.
\<close>

definition shortArrayToBase64 :: "short list \<Rightarrow> int \<Rightarrow> exn + string" where
  "shortArrayToBase64 buffer readSize =
     (if readSize < 0 then Inl IllegalArgument
      else (case putShorts buffer [0..<nat readSize] [] of
              Inl e \<Rightarrow> Inl e
            | Inr bytes \<Rightarrow> Inr (base64_encode bytes)))"

section \<open>Android module: lifecycle\<close>

text \<open>
  The fields of \<open>ExpoAudioStreamModule\<close> that the lifecycle touches. A nullable reference
  is an option: \<open>audioRecord\<close> carries whether the \<open>AudioRecord\<close> reached
  \<open>STATE_INITIALIZED\<close>, \<open>wakeLock\<close> whether the lock \<open>isHeld\<close>, \<open>recordingJob\<close>
  whether the coroutine is still active (not cancelled). Every call that leaves the module
  (platform services, the promise, the event emitter) is appended to \<open>trace\<close>, in program
  order. The ten-minute timeout given to \<open>WakeLock.acquire\<close> is not represented.
\<close>

datatype reject_code =
    E_ALREADY_RECORDING | E_NO_PERMISSION | E_AUDIO_FOCUS | E_AUDIO_RECORD_INIT
  | E_START_RECORDING

datatype call =
    StartForegroundService | StopService
  | WakeLockAcquire | WakeLockRelease
  | RequestAudioFocus | AbandonAudioFocusRequest
  | NewAudioRecord | AudioRecordStartRecording | AudioRecordStop | AudioRecordRelease
  | LaunchRecordingLoop | JobCancel
  | SendEvent string fp
  | PromiseResolve | PromiseReject reject_code
  | ThrowIllegalState | LogError | LoopCrashed exn

record module_state =
  isRecording :: bool
  audioRecord :: "bool option"
  wakeLock :: "bool option"
  recordingJob :: "bool option"
  audioFocusRequest :: bool
  trace :: "call list"

text \<open>
  What the platform answers during one call of the module: whether a React context
  exists, whether \<open>RECORD_AUDIO\<close> is granted, whether the SDK is at least Android O,
  whether audio focus is granted, and what constructing the \<open>AudioRecord\<close> gives.
\<close>

datatype ctor_result = CtorThrows | Uninitialized | Initialized

record platform =
  reactContext :: bool
  permissionGranted :: bool
  sdkAtLeastO :: bool
  focusGranted :: bool
  newAudioRecord :: ctor_result

definition emit :: "call \<Rightarrow> module_state \<Rightarrow> module_state" where
  "emit c s = s\<lparr>trace := trace s @ [c]\<rparr>"

definition startForegroundService :: "module_state \<Rightarrow> module_state" where
  "startForegroundService s = emit StartForegroundService s"

definition stopForegroundService :: "platform \<Rightarrow> module_state \<Rightarrow> module_state" where
  "stopForegroundService p s = (if reactContext p then emit StopService s else s)"

definition acquireWakeLock :: "module_state \<Rightarrow> module_state" where
  "acquireWakeLock s = emit WakeLockAcquire (s\<lparr>wakeLock := Some True\<rparr>)"

definition releaseWakeLock :: "module_state \<Rightarrow> module_state" where
  "releaseWakeLock s =
     (let s1 = (if wakeLock s = Some True then emit WakeLockRelease s else s)
      in s1\<lparr>wakeLock := None\<rparr>)"

text \<open>
  \<open>requestAudioFocus\<close> builds the focus-change listener, stores the request on Android O
  and later, and returns whether the platform granted focus.
\<close>

definition requestAudioFocus :: "platform \<Rightarrow> module_state \<Rightarrow> bool \<times> module_state" where
  "requestAudioFocus p s =
     (let s1 = (if sdkAtLeastO p then s\<lparr>audioFocusRequest := True\<rparr> else s)
      in (focusGranted p, emit RequestAudioFocus s1))"

definition abandonAudioFocus :: "platform \<Rightarrow> module_state \<Rightarrow> module_state" where
  "abandonAudioFocus p s =
     (if \<not> reactContext p then s
      else if sdkAtLeastO p then
        (if audioFocusRequest s then emit AbandonAudioFocusRequest s else s)
      else s)"

definition startRecordingLoop :: "module_state \<Rightarrow> module_state" where
  "startRecordingLoop s = emit LaunchRecordingLoop (s\<lparr>recordingJob := Some True\<rparr>)"

text \<open>
  \<open>stopRecording\<close>. \<open>AudioRecord.stop()\<close> raises \<open>IllegalStateException\<close> on an
  uninitialized object; the \<open>try\<close> then skips \<open>release()\<close> and logs.
\<close>

definition stopRecording :: "platform \<Rightarrow> module_state \<Rightarrow> module_state" where
  "stopRecording p s =
     (let s1 = s\<lparr>isRecording := False\<rparr>;
          s2 = (case recordingJob s1 of
                  None \<Rightarrow> s1
                | Some _ \<Rightarrow> emit JobCancel (s1\<lparr>recordingJob := Some False\<rparr>));
          s3 = (case audioRecord s2 of
                  None \<Rightarrow> s2
                | Some True \<Rightarrow> emit AudioRecordRelease (emit AudioRecordStop s2)
                | Some False \<Rightarrow> emit LogError s2);
          s4 = s3\<lparr>audioRecord := None\<rparr>
      in abandonAudioFocus p (stopForegroundService p (releaseWakeLock s4)))"

text \<open>
  The body of \<open>AsyncFunction("startRecording")\<close>. The context check throws outside the
  \<open>try\<close>; of the exceptions the \<open>try\<close> can catch, the one of the \<open>AudioRecord\<close>
  constructor (an invalid buffer size, for instance) is represented.
\<close>

definition startRecording :: "platform \<Rightarrow> module_state \<Rightarrow> module_state" where
  "startRecording p s =
     (if isRecording s then emit (PromiseReject E_ALREADY_RECORDING) s
      else if \<not> reactContext p then emit ThrowIllegalState s
      else if \<not> permissionGranted p then emit (PromiseReject E_NO_PERMISSION) s
      else
        (let s1 = acquireWakeLock (startForegroundService s);
             (granted, s2) = requestAudioFocus p s1
         in if \<not> granted then emit (PromiseReject E_AUDIO_FOCUS) s2
            else
              (case newAudioRecord p of
                 CtorThrows \<Rightarrow> emit (PromiseReject E_START_RECORDING) (emit NewAudioRecord s2)
               | Uninitialized \<Rightarrow>
                   emit (PromiseReject E_AUDIO_RECORD_INIT)
                     (emit NewAudioRecord (s2\<lparr>audioRecord := Some False\<rparr>))
               | Initialized \<Rightarrow>
                   (let s3 = emit NewAudioRecord (s2\<lparr>audioRecord := Some True\<rparr>);
                        s4 = emit AudioRecordStartRecording s3;
                        s5 = s4\<lparr>isRecording := True\<rparr>;
                        s6 = startRecordingLoop s5
                    in emit PromiseResolve s6))))"

text \<open>
  The \<open>OnAudioFocusChangeListener\<close> registered by \<open>requestAudioFocus\<close>. On a gain of
  focus \<open>AudioRecord.startRecording()\<close> raises \<open>IllegalStateException\<close> when the object
  never reached \<open>STATE_INITIALIZED\<close>; the flag has been set by then.
\<close>

datatype focus_change =
  AUDIOFOCUS_LOSS | AUDIOFOCUS_LOSS_TRANSIENT | AUDIOFOCUS_GAIN | AUDIOFOCUS_OTHER

fun onAudioFocusChange :: "platform \<Rightarrow> focus_change \<Rightarrow> module_state \<Rightarrow> module_state" where
  "onAudioFocusChange p AUDIOFOCUS_LOSS s = stopRecording p s"
| "onAudioFocusChange p AUDIOFOCUS_LOSS_TRANSIENT s = s\<lparr>isRecording := False\<rparr>"
| "onAudioFocusChange p AUDIOFOCUS_GAIN s =
     (if \<not> isRecording s \<and> audioRecord s \<noteq> None then
        (let s1 = s\<lparr>isRecording := True\<rparr>
         in if audioRecord s1 = Some False then emit ThrowIllegalState s1
            else startRecordingLoop (emit AudioRecordStartRecording s1))
      else s)"
| "onAudioFocusChange p AUDIOFOCUS_OTHER s = s"

text \<open>Commands and focus events, for running a sequence on the module.\<close>

datatype command = Start | Stop | Focus focus_change

fun step :: "platform \<Rightarrow> module_state \<Rightarrow> command \<Rightarrow> module_state" where
  "step p s Start = startRecording p s"
| "step p s Stop = emit PromiseResolve (stopRecording p s)"
| "step p s (Focus fc) = onAudioFocusChange p fc s"

definition run :: "platform \<Rightarrow> module_state \<Rightarrow> command list \<Rightarrow> module_state" where
  "run p s cs = foldl (step p) s cs"

definition initial :: module_state where
  "initial = \<lparr>isRecording = False, audioRecord = None, wakeLock = None,
     recordingJob = None, audioFocusRequest = False, trace = []\<rparr>"

text \<open>A platform on which every start-up step succeeds.\<close>

definition granted :: platform where
  "granted = \<lparr>reactContext = True, permissionGranted = True, sdkAtLeastO = True,
     focusGranted = True, newAudioRecord = Initialized\<rparr>"

section \<open>Android module: the capture loop\<close>

text \<open>
  One call of \<^verbatim>\<open>audioRecord.read(buffer, 0, buffer.size)\<close>: the hardware either delivers
  samples, which overwrite the front of the buffer (at most \<open>buffer.size\<close> of them) and
  whose number is returned, or fails with an error code. The buffer lives across the
  iterations, so whatever an earlier read left behind the fresh samples stays in it.
\<close>

datatype hw_read = Samples "short list" | Failure int

definition audioRecord_read :: "short list \<Rightarrow> hw_read \<Rightarrow> int \<times> short list" where
  "audioRecord_read buffer r =
     (case r of
        Samples xs \<Rightarrow>
          (let n = min (length xs) (length buffer)
           in (int n, take n xs @ drop n buffer))
      | Failure code \<Rightarrow> (code, buffer))"

text \<open>
  The body of the \<open>while\<close> loop: \<^verbatim>\<open>audioRecord?.read(...) ?: -1\<close>, then the event
  when \<open>readResult > 0\<close>. An exception escaping the helpers ends the coroutine.
\<close>

definition loopBody :: "module_state \<Rightarrow> short list \<Rightarrow> hw_read
    \<Rightarrow> bool \<times> short list \<times> module_state" where
  "loopBody s buffer r =
     (let (readResult, buffer1) =
            (case audioRecord s of
               None \<Rightarrow> (- 1, buffer)
             | Some _ \<Rightarrow> audioRecord_read buffer r)
      in if readResult > 0 then
           (case shortArrayToBase64 buffer1 readResult of
              Inl e \<Rightarrow> (False, buffer1, emit (LoopCrashed e) s)
            | Inr base64Data \<Rightarrow>
                (case calculateRMS buffer1 readResult of
                   Inl e \<Rightarrow> (False, buffer1, emit (LoopCrashed e) s)
                 | Inr rms \<Rightarrow> (True, buffer1, emit (SendEvent base64Data rms) s)))
         else (True, buffer1, s))"

text \<open>
  \<^verbatim>\<open>while (isActive && isRecording) { ... }\<close> run against the successive answers of the
  hardware, for the coroutine that \<open>recordingJob\<close> refers to; the run ends when the
  condition fails, when the coroutine dies, or when the given answers are used up. Other
  threads changing the flag while the loop runs are not represented.
\<close>

fun recordingLoop :: "module_state \<Rightarrow> short list \<Rightarrow> hw_read list \<Rightarrow> module_state" where
  "recordingLoop s buffer [] = s"
| "recordingLoop s buffer (r # rs) =
     (if recordingJob s = Some True \<and> isRecording s then
        (case loopBody s buffer r of
           (True, buffer1, s1) \<Rightarrow> recordingLoop s1 buffer1 rs
         | (False, buffer1, s1) \<Rightarrow> s1)
      else s)"

section \<open>iOS module\<close>

datatype common_format =
  PcmFormatFloat32 | PcmFormatFloat64 | PcmFormatInt16 | PcmFormatInt32 | OtherFormat

record audio_format =
  commonFormat :: common_format
  sampleRate :: real
  channelCount :: nat
  interleaved :: bool

text \<open>
  An \<open>AVAudioPCMBuffer\<close>: its format, its frame length and the sample storage, one list
  per channel pointer. \<open>floatChannelData\<close> is \<open>nil\<close> unless the samples are 32-bit
  floats, \<open>int16ChannelData\<close> is \<open>nil\<close> unless they are 16-bit integers. Every such
  buffer has \<open>frameLength \<le> frameCapacity\<close>, the length of each storage list.
\<close>

record pcm_buffer =
  format :: audio_format
  frameLength :: nat
  floatChannelData :: "real list list option"
  int16ChannelData :: "short list list option"

text \<open>\<open>channelData.pointee\<close>: the storage behind the first channel pointer.\<close>

definition pointee :: "'a list list \<Rightarrow> 'a list" where
  "pointee channelData = (case channelData of [] \<Rightarrow> [] | c # _ \<Rightarrow> c)"

subsection \<open>GainStage\<close>

text \<open>
  \<^verbatim>\<open>let boosted = sample * inputGain; ptr[i] = max(-1.0, min(1.0, boosted))\<close>
  on finite samples.
\<close>

definition gainSample :: "real \<Rightarrow> real \<Rightarrow> real" where
  "gainSample inputGain sample =
     (let boosted = sample * inputGain in max (- 1) (min 1 boosted))"

fun gainLoop :: "real \<Rightarrow> nat list \<Rightarrow> real list \<Rightarrow> real list" where
  "gainLoop inputGain [] ptr = ptr"
| "gainLoop inputGain (i # is) ptr =
     gainLoop inputGain is (ptr[i := gainSample inputGain (ptr ! i)])"

definition applyGain :: "real \<Rightarrow> pcm_buffer \<Rightarrow> pcm_buffer" where
  "applyGain inputGain buffer =
     (case floatChannelData buffer of
        None \<Rightarrow> buffer
      | Some [] \<Rightarrow> buffer
      | Some (ptr # others) \<Rightarrow>
          buffer\<lparr>floatChannelData :=
            Some (gainLoop inputGain [0..<frameLength buffer] ptr # others)\<rparr>)"

text \<open>
  Modelled from the spec: the float-to-integer step is done inside the platform's
  \<open>AVAudioConverter\<close>, which is not part of the sources. The spec gives it as: clamp the
  sample to \<open>[-1.0, 1.0]\<close>, scale by 32767, round to the nearest integer with ties away
  from zero, store as a signed 16-bit value.
\<close>

definition floatToInt16 :: "real \<Rightarrow> short" where
  "floatToInt16 x =
     (let v = max (- 1) (min 1 x) * 32767
      in word_of_int (if 0 \<le> v then \<lfloor>v + 1 / 2\<rfloor> else - \<lfloor>- v + 1 / 2\<rfloor>))"

subsection \<open>LoudnessMeter and FrameEncoder\<close>

definition calculateRMS_ios :: "pcm_buffer \<Rightarrow> fp" where
  "calculateRMS_ios buffer =
     (case int16ChannelData buffer of
        None \<Rightarrow> Fin 0
      | Some channelData \<Rightarrow>
          (let channelDataPointer = pointee channelData;
               acc = foldl (\<lambda>acc i.
                       acc + real_of_int (sint (channelDataPointer ! i))
                             * real_of_int (sint (channelDataPointer ! i)))
                     0 [0..<frameLength buffer];
               mean = fp_div (Fin acc) (Fin (real (frameLength buffer)));
               rms = fp_sqrt mean
           in clamped (fp_div rms (Fin 32767)) (Fin 0) (Fin 1)))"

text \<open>
  \<^verbatim>\<open>Data(bytes: channelData.pointee, count: frameLength * 2)\<close> copies the storage of the
  first \<open>frameLength\<close> samples, low byte first on the little-endian devices iOS runs on.
\<close>

definition shortBytes :: "short \<Rightarrow> byte list" where
  "shortBytes s = [ucast s, ucast (drop_bit 8 s)]"

definition audioBufferToBase64 :: "pcm_buffer \<Rightarrow> string" where
  "audioBufferToBase64 buffer =
     (case int16ChannelData buffer of
        None \<Rightarrow> []
      | Some channelData \<Rightarrow>
          base64_encode
            (concat (map (\<lambda>i. shortBytes (pointee channelData ! i)) [0..<frameLength buffer])))"

subsection \<open>\<open>processAudioBuffer\<close>\<close>

text \<open>
  The canonical target format, and what the platform's conversion objects answer for one
  block: whether the target \<open>AVAudioFormat\<close> could be built, whether an
  \<open>AVAudioConverter\<close> exists for the source format, whether the output buffer could be
  allocated, and the result of \<open>convert(to:error:withInputFrom:)\<close> (\<open>None\<close> when it sets
  \<open>error\<close>).
\<close>

definition targetFormat :: audio_format where
  "targetFormat = \<lparr>commonFormat = PcmFormatInt16, sampleRate = 16000, channelCount = 1,
     interleaved = True\<rparr>"

record converter_env =
  targetFormatOk :: bool
  converterOk :: bool
  outputBufferOk :: bool
  convert :: "pcm_buffer \<Rightarrow> pcm_buffer option"

record audio_event =
  data :: string
  amplitude :: fp

definition processAudioBuffer :: "converter_env \<Rightarrow> real \<Rightarrow> pcm_buffer \<Rightarrow> audio_event option" where
  "processAudioBuffer env inputGain buffer0 =
     (let buffer = applyGain inputGain buffer0 in
      if \<not> targetFormatOk env then None
      else
        (let finalBuffer =
               (if format buffer \<noteq> targetFormat then
                  (if converterOk env then
                     (if outputBufferOk env then
                        (case convert env buffer of
                           Some convertedBuffer \<Rightarrow> convertedBuffer
                         | None \<Rightarrow> buffer)
                      else buffer)
                   else buffer)
                else buffer);
             rms = calculateRMS_ios finalBuffer;
             base64Data = audioBufferToBase64 finalBuffer
         in Some \<lparr>data = base64Data, amplitude = rms\<rparr>))"

subsection \<open>Start of a session\<close>

record ios_module =
  ios_isRecording :: bool
  audioEngine :: bool
  inputNode :: bool
  inputGain :: real

record ios_platform =
  configureAudioSessionThrows :: bool
  recordingFormatOk :: bool
  engineStartThrows :: bool

text \<open>
  \<open>startAudioEngine\<close> creates the engine and takes its input node before anything can
  throw; the tap is installed and the engine started afterwards.
\<close>

definition startAudioEngine :: "ios_platform \<Rightarrow> ios_module \<Rightarrow> bool \<times> ios_module" where
  "startAudioEngine p s =
     (let s1 = s\<lparr>audioEngine := True, inputNode := True\<rparr>
      in if \<not> recordingFormatOk p then (False, s1)
         else if engineStartThrows p then (False, s1)
         else (True, s1))"

definition startRecording_ios :: "ios_platform \<Rightarrow> ios_module
    \<Rightarrow> (reject_code + unit) \<times> ios_module" where
  "startRecording_ios p s =
     (if ios_isRecording s then (Inl E_ALREADY_RECORDING, s)
      else if configureAudioSessionThrows p then (Inl E_START_RECORDING, s)
      else
        (case startAudioEngine p s of
           (False, s1) \<Rightarrow> (Inl E_START_RECORDING, s1)
         | (True, s1) \<Rightarrow> (Inr (), s1\<lparr>ios_isRecording := True\<rparr>)))"

section \<open>The amplitude formula of the specification\<close>

text \<open>
  The spec's words for the loudness of a block of canonical samples: the square root of
  the mean of the squared samples, divided by 32767, clamped to \<open>[0.0, 1.0]\<close>.
\<close>

definition spec_mean_square :: "int list \<Rightarrow> real" where
  "spec_mean_square samples =
     (\<Sum>x\<leftarrow>samples. (real_of_int x)\<^sup>2) / real (length samples)"

definition spec_clamp :: "real \<Rightarrow> real \<Rightarrow> real \<Rightarrow> real" where
  "spec_clamp x lo hi = max lo (min hi x)"

definition spec_amplitude :: "int list \<Rightarrow> real" where
  "spec_amplitude samples = spec_clamp (sqrt (spec_mean_square samples) / 32767) 0 1"

section \<open>Arithmetic of the block helpers\<close>

lemma sint16_bounds: "- (2 ^ 15) \<le> sint (s :: short)" "sint (s :: short) < 2 ^ 15"
  using sint_ge [of s] sint_lt [of s] by simp_all

lemma sq_bound:
  assumes "- (2 ^ 15) \<le> (x :: int)" and "x < 2 ^ 15"
  shows "x * x \<le> 2 ^ 30"
proof -
  from assms have "\<bar>x\<bar> \<le> 2 ^ 15" by simp
  then have "\<bar>x\<bar> * \<bar>x\<bar> \<le> 2 ^ 15 * 2 ^ 15" by (intro mult_mono) simp_all
  then show ?thesis by simp
qed

text \<open>The 32-bit product of a sample with itself never wraps.\<close>

lemma squareInt_eq: "squareInt s = sint s * sint s"
proof -
  have b: "- (2 ^ 15) \<le> sint s" "sint s < 2 ^ 15" using sint16_bounds by auto
  have u: "sint s * sint s < 2 ^ 31" using sq_bound [OF b] by simp
  have "(0 :: int) \<le> sint s * sint s" by simp
  then have l: "- (2 ^ 31) \<le> sint s * sint s" by (rule order_trans [rotated]) simp
  have "signed_take_bit 31 (sint s * sint s) = sint s * sint s"
    using u l by (intro signed_take_bit_int_eq_self)
  moreover have "sint (scast s :: 32 word) = sint s"
    by (rule sint_up_scast) (simp add: is_up)
  ultimately show ?thesis
    by (simp add: squareInt_def sint_word_ariths)
qed

lemma sumSquares_take:
  "n \<le> length buffer \<Longrightarrow> k \<le> n \<Longrightarrow>
   sumSquares buffer [k..<n] acc
     = Inr (acc + (\<Sum>x\<leftarrow>drop k (take n buffer). (real_of_int (sint x))\<^sup>2))"
proof (induction "n - k" arbitrary: k acc)
  case 0
  then show ?case by simp
next
  case (Suc d)
  then have kn: "k < n" by simp
  then have upt: "[k..<n] = k # [Suc k..<n]" by (simp add: upt_conv_Cons)
  have dr: "drop k (take n buffer) = buffer ! k # drop (Suc k) (take n buffer)"
    using kn Suc.prems by (simp add: Cons_nth_drop_Suc [symmetric])
  have "d = n - Suc k" using Suc.hyps by simp
  from Suc.hyps(1) [OF this Suc.prems(1), of "acc + real_of_int (squareInt (buffer ! k))"] kn
  show ?case using Suc.prems
    by (simp add: upt dr squareInt_eq power2_eq_square)
qed

lemma sum_nonneg: "0 \<le> (\<Sum>x\<leftarrow>xs. (real_of_int (f x))\<^sup>2)"
  by (induction xs) simp_all

lemma coerceIn_Fin:
  "lo \<le> hi \<Longrightarrow> coerceIn (Fin x) (Fin lo) (Fin hi) = Fin (spec_clamp x lo hi)"
  by (auto simp: coerceIn_def spec_clamp_def)

lemma clamped_Fin:
  "lo \<le> hi \<Longrightarrow> clamped (Fin x) (Fin lo) (Fin hi) = Fin (spec_clamp x lo hi)"
  by (auto simp: clamped_def swift_min_def swift_max_def spec_clamp_def)

lemma rms_pipeline:
  assumes "0 \<le> t" and "0 < n"
  shows "fp_div (fp_sqrt (fp_div (Fin t) (Fin (real n)))) (Fin 32767)
           = Fin (sqrt (t / real n) / 32767)"
proof -
  have "0 \<le> t / real n" using assms by simp
  then show ?thesis using assms by (simp add: not_less)
qed

lemma calculateRMS_spec:
  assumes "0 < n" and "n \<le> length buffer"
  shows "calculateRMS buffer (int n) = Inr (Fin (spec_amplitude (map sint (take n buffer))))"
proof -
  let ?S = "\<Sum>x\<leftarrow>take n buffer. (real_of_int (sint x))\<^sup>2"
  have s: "sumSquares buffer [0..<n] 0 = Inr ?S"
    using sumSquares_take [OF assms(2), of 0 0] by simp
  have nn: "0 \<le> ?S" by (rule sum_nonneg)
  have "calculateRMS buffer (int n)
          = Inr (coerceIn (Fin (sqrt (?S / real n) / 32767)) (Fin 0) (Fin 1))"
    unfolding calculateRMS_def using rms_pipeline [OF nn assms(1)] by (simp add: s)
  also have "\<dots> = Inr (Fin (spec_clamp (sqrt (?S / real n) / 32767) 0 1))"
    by (simp add: coerceIn_Fin)
  also have "?S / real n = spec_mean_square (map sint (take n buffer))"
    using assms(2) by (simp add: spec_mean_square_def o_def min_absorb2)
  finally show ?thesis by (simp add: spec_amplitude_def)
qed

lemma foldl_add_sum_list:
  "foldl (\<lambda>acc i. acc + g i) (a :: real) is = a + sum_list (map g is)"
  by (induction "is" arbitrary: a) simp_all

lemma nth_upt_take: "n \<le> length xs \<Longrightarrow> map ((!) xs) [0..<n] = take n xs"
  by (simp add: list_eq_iff_nth_eq)

lemma map_nth_upt_take:
  "n \<le> length xs \<Longrightarrow> map (\<lambda>i. f (xs ! i)) [0..<n] = map f (take n xs)"
  by (simp add: list_eq_iff_nth_eq)

lemma calculateRMS_ios_spec:
  assumes "0 < frameLength buffer" and "int16ChannelData buffer = Some (c # others)"
    and "frameLength buffer \<le> length c"
  shows "calculateRMS_ios buffer
           = Fin (spec_amplitude (map sint (take (frameLength buffer) c)))"
proof -
  let ?n = "frameLength buffer"
  let ?S = "\<Sum>x\<leftarrow>take ?n c. (real_of_int (sint x))\<^sup>2"
  have nn: "0 \<le> ?S" by (rule sum_nonneg)
  have f: "foldl (\<lambda>acc i. acc + real_of_int (sint (c ! i)) * real_of_int (sint (c ! i)))
             0 [0..<?n] = ?S"
    using map_nth_upt_take [OF assms(3), of "\<lambda>x. real_of_int (sint x) * real_of_int (sint x)"]
    by (simp add: foldl_add_sum_list power2_eq_square)
  have "calculateRMS_ios buffer = clamped (Fin (sqrt (?S / real ?n) / 32767)) (Fin 0) (Fin 1)"
    by (simp only: calculateRMS_ios_def assms(2) option.case pointee_def list.case Let_def f
        rms_pipeline [OF nn assms(1)])
  also have "\<dots> = Fin (spec_clamp (sqrt (?S / real ?n) / 32767) 0 1)"
    by (simp add: clamped_Fin)
  also have "?S / real ?n = spec_mean_square (map sint (take ?n c))"
    using assms(3) by (simp add: spec_mean_square_def o_def min_absorb2)
  finally show ?thesis by (simp add: spec_amplitude_def)
qed

lemma spec_amplitude_replicate:
  "0 < n \<Longrightarrow> spec_amplitude (replicate n c) = spec_clamp (\<bar>real_of_int c\<bar> / 32767) 0 1"
  by (simp add: spec_amplitude_def spec_mean_square_def sum_list_replicate)

section \<open>The text encoding is invertible\<close>

lemma b64val_b64char: "n < 64 \<Longrightarrow> b64val (b64char n) = Some n"
  by (auto simp: b64val_def b64char_def Let_def)

lemma of_char_neq: "(of_char c :: nat) \<noteq> of_char d \<Longrightarrow> c \<noteq> d"
  by auto

lemma b64char_not_pad: "n < 64 \<Longrightarrow> b64char n \<noteq> CHR ''=''"
  by (rule of_char_neq) (auto simp: b64char_def)

lemma byte_lt: "unat (a :: byte) < 256"
  using unsigned_less [of a] by simp

lemma sextets_lt:
  fixes x y z :: nat
  assumes "x < 256" "y < 256" "z < 256"
  shows "x div 4 < 64" "(x mod 4) * 16 + y div 16 < 64" "(y mod 16) * 4 + z div 64 < 64"
    "z mod 64 < 64" "(x mod 4) * 16 < 64" "(y mod 16) * 4 < 64"
proof -
  show "x div 4 < 64" using less_mult_imp_div_less [of x 64 4] assms by simp
  have x4: "x mod 4 \<le> 3" using mod_less_divisor [of 4 x] by linarith
  have y16: "y mod 16 \<le> 15" using mod_less_divisor [of 16 y] by linarith
  have yd: "y div 16 \<le> 15" using less_mult_imp_div_less [of y 16 16] assms by simp
  have zd: "z div 64 \<le> 3" using less_mult_imp_div_less [of z 4 64] assms by simp
  show "(x mod 4) * 16 + y div 16 < 64" using x4 yd by linarith
  show "(y mod 16) * 4 + z div 64 < 64" using y16 zd by linarith
  show "z mod 64 < 64" by simp
  show "(x mod 4) * 16 < 64" using x4 by linarith
  show "(y mod 16) * 4 < 64" using y16 by linarith
qed

lemma regroup:
  fixes x y z :: nat
  assumes "x < 256" "y < 256" "z < 256"
  shows "(x div 4) * 4 + ((x mod 4) * 16 + y div 16) div 16 = x"
    "(((x mod 4) * 16 + y div 16) mod 16) * 16 + ((y mod 16) * 4 + z div 64) div 4 = y"
    "(((y mod 16) * 4 + z div 64) mod 4) * 64 + z mod 64 = z"
    "(x div 4) * 4 + ((x mod 4) * 16) div 16 = x"
    "(((x mod 4) * 16 + y div 16) mod 16) * 16 + ((y mod 16) * 4) div 4 = y"
proof -
  have yd: "y div 16 < 16" using less_mult_imp_div_less [of y 16 16] assms by simp
  have zd: "z div 64 < 4" using less_mult_imp_div_less [of z 4 64] assms by simp
  show "(x div 4) * 4 + ((x mod 4) * 16 + y div 16) div 16 = x"
    using yd by simp
  show "(((x mod 4) * 16 + y div 16) mod 16) * 16 + ((y mod 16) * 4 + z div 64) div 4 = y"
    using yd zd by simp
  show "(((y mod 16) * 4 + z div 64) mod 4) * 64 + z mod 64 = z"
    using zd by simp
  show "(x div 4) * 4 + ((x mod 4) * 16) div 16 = x"
    by simp
  show "(((x mod 4) * 16 + y div 16) mod 16) * 16 + ((y mod 16) * 4) div 4 = y"
    using yd by simp 
qed

lemma decode_quad:
  assumes "b64val c1 = Some p" "b64val c2 = Some q" "b64val c3 = Some r" "b64val c4 = Some t"
    and "c4 \<noteq> CHR ''=''"
  shows "base64_decode (c1 # c2 # c3 # c4 # rest)
     = (case base64_decode rest of
          Some bs \<Rightarrow> Some (of_nat (p * 4 + q div 16) # of_nat ((q mod 16) * 16 + r div 4)
                       # of_nat ((r mod 4) * 64 + t) # bs)
        | None \<Rightarrow> None)"
  using assms by (simp split: option.splits)

lemma decode_pad1:
  assumes "b64val c1 = Some p" "b64val c2 = Some q" "b64val c3 = Some r"
    and "c3 \<noteq> CHR ''=''"
  shows "base64_decode [c1, c2, c3, CHR ''='']
     = Some [of_nat (p * 4 + q div 16), of_nat ((q mod 16) * 16 + r div 4)]"
  using assms by simp

lemma decode_pad2:
  assumes "b64val c1 = Some p" "b64val c2 = Some q"
  shows "base64_decode [c1, c2, CHR ''='', CHR ''='']
     = Some [of_nat (p * 4 + q div 16)]"
  using assms by simp

section \<open>The block encoder, the loop body and the gain loop\<close>

lemma putShorts_take:
  "n \<le> length buffer \<Longrightarrow> k \<le> n \<Longrightarrow>
   putShorts buffer [k..<n] bytes
     = Inr (bytes @ concat (map shortBytes (drop k (take n buffer))))"
proof (induction "n - k" arbitrary: k bytes)
  case 0
  then show ?case by simp
next
  case (Suc d)
  then have kn: "k < n" by simp
  then have upt: "[k..<n] = k # [Suc k..<n]" by (simp add: upt_conv_Cons)
  have dr: "drop k (take n buffer) = buffer ! k # drop (Suc k) (take n buffer)"
    using kn Suc.prems by (simp add: Cons_nth_drop_Suc [symmetric])
  have "d = n - Suc k" using Suc.hyps by simp
  from Suc.hyps(1) [OF this Suc.prems(1), of "putShort bytes (buffer ! k)"] kn
  show ?case using Suc.prems
    by (simp add: upt dr putShort_def shortBytes_def)
qed

lemma shortArrayToBase64_take:
  assumes "n \<le> length buffer"
  shows "shortArrayToBase64 buffer (int n) = Inr (base64_encode (concat (map shortBytes (take n buffer))))"
  using putShorts_take [OF assms, of 0 "[]"] by (simp add: shortArrayToBase64_def)

lemma length_bytes: "length (concat (map shortBytes xs)) = 2 * length xs"
  by (induction xs) (simp_all add: shortBytes_def)

lemma loopBody_short_read:
  assumes "audioRecord s = Some h" and "xs \<noteq> []" and "length xs < length buffer"
  shows "loopBody s buffer (Samples xs)
     = (True, xs @ drop (length xs) buffer,
        emit (SendEvent (base64_encode (concat (map shortBytes xs)))
                        (Fin (spec_amplitude (map sint xs)))) s)"
proof -
  let ?n = "length xs"
  let ?b = "xs @ drop ?n buffer"
  have rd: "audioRecord_read buffer (Samples xs) = (int ?n, ?b)"
    using assms(3) by (simp add: audioRecord_read_def min_absorb1 Let_def)
  have pos: "0 < ?n" using assms(2) by simp
  have le: "?n \<le> length ?b" by simp
  have e: "shortArrayToBase64 ?b (int ?n) = Inr (base64_encode (concat (map shortBytes xs)))"
    using shortArrayToBase64_take [OF le] by simp
  have r: "calculateRMS ?b (int ?n) = Inr (Fin (spec_amplitude (map sint xs)))"
    using calculateRMS_spec [OF pos le] by simp
  show ?thesis using pos
    by (simp add: loopBody_def assms(1) rd e r)
qed

lemma gainSample_clamp: "gainSample g s = spec_clamp (s * g) (- 1) 1"
  by (simp add: gainSample_def spec_clamp_def)

lemma gainSample_bound: "\<bar>gainSample g s\<bar> \<le> 1"
  by (simp add: gainSample_def Let_def abs_le_iff)

lemma gainLoop_upt:
  "n \<le> length ptr \<Longrightarrow> k \<le> n \<Longrightarrow>
   gainLoop g [k..<n] ptr = take k ptr @ map (gainSample g) (drop k (take n ptr)) @ drop n ptr"
proof (induction "n - k" arbitrary: k ptr)
  case 0
  then show ?case by simp
next
  case (Suc d)
  then have kn: "k < n" by simp
  then have upt: "[k..<n] = k # [Suc k..<n]" by (simp add: upt_conv_Cons)
  let ?p = "ptr[k := gainSample g (ptr ! k)]"
  have "d = n - Suc k" using Suc.hyps by simp
  from Suc.hyps(1) [OF this, of ?p] kn Suc.prems
  have "gainLoop g [Suc k..<n] ?p = take (Suc k) ?p @ map (gainSample g) (drop (Suc k) (take n ?p)) @ drop n ?p"
    by simp
  moreover have "take (Suc k) ?p = take k ptr @ [gainSample g (ptr ! k)]"
    using kn Suc.prems by (simp add: take_Suc_conv_app_nth)
  moreover have "drop (Suc k) (take n ?p) = drop (Suc k) (take n ptr)"
    using kn by (simp add: drop_take)
  moreover have "drop n ?p = drop n ptr" using kn by simp
  moreover have "drop k (take n ptr) = ptr ! k # drop (Suc k) (take n ptr)"
    using kn Suc.prems by (simp add: Cons_nth_drop_Suc [symmetric])
  ultimately show ?case by (simp add: upt)
qed

section \<open>Lifecycle facts\<close>

lemma resolve_session_running:
  assumes "last (trace (startRecording p s)) = PromiseResolve"
  shows "isRecording (startRecording p s)"
    and "audioRecord (startRecording p s) = Some True"
    and "recordingJob (startRecording p s) = Some True"
    and "wakeLock (startRecording p s) = Some True"
  using assms
  by (auto simp: startRecording_def acquireWakeLock_def startForegroundService_def
      requestAudioFocus_def emit_def startRecordingLoop_def Let_def
      split: if_splits ctor_result.splits)

section \<open>Worked values\<close>

text \<open>
  The samples \<open>7, -7\<close> are the bytes \<open>07 00 F9 FF\<close>, whose base64 text is \<open>BwD5/w==\<close>;
  their RMS is \<open>7\<close>.
\<close>

lemma encode_example: "shortArrayToBase64 [7, - 7, 9] 2 = Inr ''BwD5/w==''"
  by code_simp

lemma encode_bytes_example: "base64_encode (concat (map shortBytes [7, - 7])) = ''BwD5/w==''"
  by code_simp

lemma man_example: "base64_encode [77, 97, 110] = ''TWFu''"
  by code_simp

lemma bytes_example: "concat (map shortBytes [7, - 7]) = [7, 0, 249, 255]"
  by code_simp

lemma encode_four_example: "base64_encode [7, 0, 249, 255] = ''BwD5/w==''"
  by code_simp

lemma rms_example: "calculateRMS [7, - 7, 9] 2 = Inr (Fin (7 / 32767))"
  using calculateRMS_spec [of 2 "[7, - 7, 9]"]
  by (simp add: spec_amplitude_def spec_mean_square_def spec_clamp_def)

section \<open>LoudnessMeter\<close>

text \<open>
  Claim C3. For a zero-length block the loudness meter is to return exactly \<open>0.0\<close>
  through a guard of its own. Evaluated on the code: \<open>calculateRMS\<close> has no such guard on
  either platform. With a read size (frame length) of zero the loop adds nothing, the mean
  is \<open>0.0 / 0\<close>, and the NaN passes through the square root, the normalisation and the final
  clamp. On iOS \<open>processAudioBuffer\<close> delivers an event carrying that amplitude for an empty
  canonical block; on Android only the test \<open>readResult > 0\<close> of the calling loop keeps an
  empty read away from \<open>calculateRMS\<close>.
\<close>

theorem zero_length_block_amplitude_is_NaN:
  "calculateRMS buffer 0 = Inr NaN
   \<and> calculateRMS_ios \<lparr>format = fmt, frameLength = 0, floatChannelData = None,
        int16ChannelData = Some channelData\<rparr> = NaN
   \<and> processAudioBuffer
        \<lparr>targetFormatOk = True, converterOk = c, outputBufferOk = b, convert = cv\<rparr> g
        \<lparr>format = targetFormat, frameLength = 0, floatChannelData = None,
         int16ChannelData = Some [[]]\<rparr>
       = Some \<lparr>data = [], amplitude = NaN\<rparr>
   \<and> loopBody s buffer (Samples []) = (True, buffer, s)"
proof -
  have k: "calculateRMS buffer 0 = Inr NaN"
    by (simp add: calculateRMS_def coerceIn_def)
  have i: "calculateRMS_ios \<lparr>format = fmt, frameLength = 0, floatChannelData = None,
        int16ChannelData = Some channelData\<rparr> = NaN" for fmt channelData
    by (simp add: calculateRMS_ios_def clamped_def swift_min_def swift_max_def)
  have p: "processAudioBuffer
        \<lparr>targetFormatOk = True, converterOk = c, outputBufferOk = b, convert = cv\<rparr> g
        \<lparr>format = targetFormat, frameLength = 0, floatChannelData = None,
         int16ChannelData = Some [[]]\<rparr>
       = Some \<lparr>data = [], amplitude = NaN\<rparr>"
    by (simp add: processAudioBuffer_def applyGain_def i audioBufferToBase64_def)
  have l: "loopBody s buffer (Samples []) = (True, buffer, s)"
    by (cases "audioRecord s") (simp_all add: loopBody_def audioRecord_read_def)
  from k i p l show ?thesis by blast
qed

text \<open>
  Claim C7. For every non-empty block of canonical 16-bit samples the reported amplitude is
  the square root of the mean of the squared samples, divided by 32767 and clamped to
  \<open>[0.0, 1.0]\<close>: on Android for the first \<open>n\<close> samples of the read buffer, on iOS for the
  first \<open>n\<close> frames of the first channel. An all-zero block gives exactly \<open>0\<close>; a block
  that is all \<open>32767\<close>, or all \<open>-32768\<close>, gives \<open>1\<close>.
\<close>

theorem amplitude_is_clamped_normalised_rms:
  assumes "0 < n" and "n \<le> length buffer"
  shows "calculateRMS buffer (int n) = Inr (Fin (spec_amplitude (map sint (take n buffer))))
   \<and> calculateRMS_ios \<lparr>format = fmt, frameLength = n, floatChannelData = None,
        int16ChannelData = Some (buffer # others)\<rparr>
       = Fin (spec_amplitude (map sint (take n buffer)))
   \<and> calculateRMS (replicate n 0) (int n) = Inr (Fin 0)
   \<and> calculateRMS (replicate n 32767) (int n) = Inr (Fin 1)
   \<and> calculateRMS (replicate n (- 32768)) (int n) = Inr (Fin 1)"
proof -
  have a: "calculateRMS buffer (int n) = Inr (Fin (spec_amplitude (map sint (take n buffer))))"
    using assms by (rule calculateRMS_spec)
  have b: "calculateRMS_ios \<lparr>format = fmt, frameLength = n, floatChannelData = None,
        int16ChannelData = Some (buffer # others)\<rparr>
       = Fin (spec_amplitude (map sint (take n buffer)))"
    using calculateRMS_ios_spec [of "\<lparr>format = fmt, frameLength = n, floatChannelData = None,
        int16ChannelData = Some (buffer # others)\<rparr>" buffer others] assms
    by simp
  have z: "calculateRMS (replicate n 0) (int n) = Inr (Fin 0)"
    using calculateRMS_spec [of n "replicate n 0"] assms(1)
    by (simp add: spec_amplitude_replicate spec_clamp_def)
  have m: "calculateRMS (replicate n 32767) (int n) = Inr (Fin 1)"
    using calculateRMS_spec [of n "replicate n 32767"] assms(1)
    by (simp add: spec_amplitude_replicate spec_clamp_def)
  have m': "calculateRMS (replicate n (- 32768)) (int n) = Inr (Fin 1)"
    using calculateRMS_spec [of n "replicate n (- 32768)"] assms(1)
    by (simp add: spec_amplitude_replicate spec_clamp_def)
  from a b z m m' show ?thesis by blast
qed

theorem amplitude_is_clamped_normalised_rms_witness:
  "(0 :: nat) < 2 \<and> 2 \<le> length [7, - 7 :: short]
   \<and> calculateRMS [7, - 7] 2 = Inr (Fin (7 / 32767))
   \<and> calculateRMS_ios \<lparr>format = targetFormat, frameLength = 2, floatChannelData = None,
        int16ChannelData = Some [[7, - 7]]\<rparr> = Fin (7 / 32767)
   \<and> calculateRMS [0, 0] 2 = Inr (Fin 0)
   \<and> calculateRMS [32767, 32767] 2 = Inr (Fin 1)
   \<and> calculateRMS [- 32768, - 32768] 2 = Inr (Fin 1)"
  using amplitude_is_clamped_normalised_rms [of 2 "[7, - 7]" targetFormat "[]"]
  by (simp add: spec_amplitude_def spec_mean_square_def spec_clamp_def numeral_2_eq_2)

section \<open>LifecycleGuard\<close>

text \<open>
  Claim C1. The keep-alive (wake lock and foreground service) is to be released on every
  path that leaves a session, failed starts included, before the error is reported.
  Evaluated on the code: \<open>startRecording\<close> starts the foreground service and acquires the
  wake lock first, and each of its three failure exits (focus denied, \<open>AudioRecord\<close> not
  initialized, exception caught) rejects the promise and returns with the lock still held
  and the service still running: no release precedes the rejection in the trace.
\<close>

theorem failed_start_leaves_keep_alive_held:
  "startRecording (granted\<lparr>focusGranted := False\<rparr>) initial
     = \<lparr>isRecording = False, audioRecord = None, wakeLock = Some True, recordingJob = None,
        audioFocusRequest = True,
        trace = [StartForegroundService, WakeLockAcquire, RequestAudioFocus,
                 PromiseReject E_AUDIO_FOCUS]\<rparr>
   \<and> startRecording (granted\<lparr>newAudioRecord := Uninitialized\<rparr>) initial
     = \<lparr>isRecording = False, audioRecord = Some False, wakeLock = Some True,
        recordingJob = None, audioFocusRequest = True,
        trace = [StartForegroundService, WakeLockAcquire, RequestAudioFocus, NewAudioRecord,
                 PromiseReject E_AUDIO_RECORD_INIT]\<rparr>
   \<and> startRecording (granted\<lparr>newAudioRecord := CtorThrows\<rparr>) initial
     = \<lparr>isRecording = False, audioRecord = None, wakeLock = Some True, recordingJob = None,
        audioFocusRequest = True,
        trace = [StartForegroundService, WakeLockAcquire, RequestAudioFocus, NewAudioRecord,
                 PromiseReject E_START_RECORDING]\<rparr>"
  by (simp add: startRecording_def granted_def initial_def acquireWakeLock_def
      startForegroundService_def requestAudioFocus_def emit_def)

text \<open>
  Claim C5. From Idle, the sequence start, transient focus loss, focus gain is to end
  Active with the hardware stream started exactly once more than stopped. Evaluated on the
  code: the session ends recording, but the transient-loss branch only clears the flag, so
  the gain branch calls \<open>AudioRecord.startRecording()\<close> a second time on a handle that was
  never stopped and launches a second capture loop: two starts, no stop.
\<close>

theorem transient_loss_then_gain_starts_hardware_twice:
  "run granted initial [Start, Focus AUDIOFOCUS_LOSS_TRANSIENT, Focus AUDIOFOCUS_GAIN]
     = \<lparr>isRecording = True, audioRecord = Some True, wakeLock = Some True,
        recordingJob = Some True, audioFocusRequest = True,
        trace = [StartForegroundService, WakeLockAcquire, RequestAudioFocus, NewAudioRecord,
                 AudioRecordStartRecording, LaunchRecordingLoop, PromiseResolve,
                 AudioRecordStartRecording, LaunchRecordingLoop]\<rparr>
   \<and> count_list
         (trace (run granted initial
                   [Start, Focus AUDIOFOCUS_LOSS_TRANSIENT, Focus AUDIOFOCUS_GAIN]))
         AudioRecordStartRecording = 2
   \<and> count_list
         (trace (run granted initial
                   [Start, Focus AUDIOFOCUS_LOSS_TRANSIENT, Focus AUDIOFOCUS_GAIN]))
         AudioRecordStop = 0"
proof -
  have r: "run granted initial [Start, Focus AUDIOFOCUS_LOSS_TRANSIENT, Focus AUDIOFOCUS_GAIN]
     = \<lparr>isRecording = True, audioRecord = Some True, wakeLock = Some True,
        recordingJob = Some True, audioFocusRequest = True,
        trace = [StartForegroundService, WakeLockAcquire, RequestAudioFocus, NewAudioRecord,
                 AudioRecordStartRecording, LaunchRecordingLoop, PromiseResolve,
                 AudioRecordStartRecording, LaunchRecordingLoop]\<rparr>"
    by (simp add: run_def startRecording_def granted_def initial_def acquireWakeLock_def
        startForegroundService_def requestAudioFocus_def emit_def startRecordingLoop_def)
  show ?thesis unfolding r by simp
qed

text \<open>
  The guard of \<open>startRecording\<close> is the recording flag. A start on a module whose flag is
  set only adds the rejection to the trace; in particular, directly after a first call that
  resolved, the second call only adds the rejection, and the recording flag, the hardware
  handle, the capture job and the wake lock are those of the first call's running session.
  The same holds on iOS, where the rejected call returns the module unchanged.
\<close>

lemma start_while_recording_is_rejected:
  "(isRecording s0 \<longrightarrow>
      startRecording p' s0 = s0\<lparr>trace := trace s0 @ [PromiseReject E_ALREADY_RECORDING]\<rparr>)
   \<and> (last (trace (startRecording p s)) = PromiseResolve \<longrightarrow>
      startRecording p' (startRecording p s)
        = (startRecording p s)\<lparr>trace := trace (startRecording p s)
                                          @ [PromiseReject E_ALREADY_RECORDING]\<rparr>
      \<and> isRecording (startRecording p' (startRecording p s))
      \<and> audioRecord (startRecording p' (startRecording p s)) = Some True
      \<and> recordingJob (startRecording p' (startRecording p s)) = Some True
      \<and> wakeLock (startRecording p' (startRecording p s)) = Some True)
   \<and> (startRecording_ios q t = (Inr (), t1) \<longrightarrow>
      startRecording_ios q' t1 = (Inl E_ALREADY_RECORDING, t1) \<and> ios_isRecording t1)"
proof (intro conjI impI)
  assume "isRecording s0"
  then show "startRecording p' s0
      = s0\<lparr>trace := trace s0 @ [PromiseReject E_ALREADY_RECORDING]\<rparr>"
    by (simp add: startRecording_def emit_def)
next
  assume a: "last (trace (startRecording p s)) = PromiseResolve"
  note r = resolve_session_running [OF a]
  show e: "startRecording p' (startRecording p s)
        = (startRecording p s)\<lparr>trace := trace (startRecording p s)
                                          @ [PromiseReject E_ALREADY_RECORDING]\<rparr>"
    using r(1) by (simp add: startRecording_def [of p'] emit_def)
  show "isRecording (startRecording p' (startRecording p s))"
    "audioRecord (startRecording p' (startRecording p s)) = Some True"
    "recordingJob (startRecording p' (startRecording p s)) = Some True"
    "wakeLock (startRecording p' (startRecording p s)) = Some True"
    unfolding e using r by simp_all
next
  assume b: "startRecording_ios q t = (Inr (), t1)"
  then show i: "ios_isRecording t1"
    by (auto simp: startRecording_ios_def startAudioEngine_def Let_def split: if_splits)
  then show "startRecording_ios q' t1 = (Inl E_ALREADY_RECORDING, t1)"
    by (simp add: startRecording_ios_def)
qed

lemma start_while_recording_is_rejected_example:
  "isRecording (startRecording granted initial)
   \<and> last (trace (startRecording granted initial)) = PromiseResolve
   \<and> startRecording granted (startRecording granted initial)
       = \<lparr>isRecording = True, audioRecord = Some True, wakeLock = Some True,
          recordingJob = Some True, audioFocusRequest = True,
          trace = [StartForegroundService, WakeLockAcquire, RequestAudioFocus, NewAudioRecord,
                   AudioRecordStartRecording, LaunchRecordingLoop, PromiseResolve,
                   PromiseReject E_ALREADY_RECORDING]\<rparr>
   \<and> startRecording_ios
         \<lparr>configureAudioSessionThrows = False, recordingFormatOk = True,
          engineStartThrows = False\<rparr>
         \<lparr>ios_isRecording = False, audioEngine = False, inputNode = False, inputGain = 1\<rparr>
       = (Inr (), \<lparr>ios_isRecording = True, audioEngine = True, inputNode = True,
                    inputGain = 1\<rparr>)
   \<and> startRecording_ios
         \<lparr>configureAudioSessionThrows = False, recordingFormatOk = True,
          engineStartThrows = False\<rparr>
         \<lparr>ios_isRecording = True, audioEngine = True, inputNode = True, inputGain = 1\<rparr>
       = (Inl E_ALREADY_RECORDING,
          \<lparr>ios_isRecording = True, audioEngine = True, inputNode = True, inputGain = 1\<rparr>)"
proof -
  have s: "startRecording granted initial
      = \<lparr>isRecording = True, audioRecord = Some True, wakeLock = Some True,
          recordingJob = Some True, audioFocusRequest = True,
          trace = [StartForegroundService, WakeLockAcquire, RequestAudioFocus, NewAudioRecord,
                   AudioRecordStartRecording, LaunchRecordingLoop, PromiseResolve]\<rparr>"
    by (simp add: startRecording_def granted_def initial_def acquireWakeLock_def
        startForegroundService_def requestAudioFocus_def emit_def startRecordingLoop_def)
  have i: "startRecording_ios
         \<lparr>configureAudioSessionThrows = False, recordingFormatOk = True,
          engineStartThrows = False\<rparr>
         \<lparr>ios_isRecording = False, audioEngine = False, inputNode = False, inputGain = 1\<rparr>
       = (Inr (), \<lparr>ios_isRecording = True, audioEngine = True, inputNode = True,
                    inputGain = 1\<rparr>)"
    by (simp add: startRecording_ios_def startAudioEngine_def)
  show ?thesis
    using start_while_recording_is_rejected [of "startRecording granted initial" granted
        granted initial
        "\<lparr>configureAudioSessionThrows = False, recordingFormatOk = True,
          engineStartThrows = False\<rparr>"
        "\<lparr>ios_isRecording = False, audioEngine = False, inputNode = False, inputGain = 1\<rparr>"
        "\<lparr>ios_isRecording = True, audioEngine = True, inputNode = True, inputGain = 1\<rparr>"
        "\<lparr>configureAudioSessionThrows = False, recordingFormatOk = True,
          engineStartThrows = False\<rparr>"]
    by (simp add: s i)
qed

text \<open>
  Claim C6. A second \<open>start\<close> with no \<open>stop\<close> in between is to be rejected as already
  active and to change nothing, the first session remaining as it was. Evaluated on the
  code: a transient focus loss clears the recording flag and keeps the \<open>AudioRecord\<close>, the
  wake lock and the foreground service, so a second start that follows it passes the guard.
  It is resolved, not rejected; it starts the service and acquires a wake lock again,
  replaces the first session's \<open>AudioRecord\<close> by a new one without stopping or releasing
  it, and launches a second capture loop without cancelling the first.
\<close>

theorem start_after_transient_loss_is_not_rejected:
  "run granted initial [Start, Focus AUDIOFOCUS_LOSS_TRANSIENT, Start]
     = \<lparr>isRecording = True, audioRecord = Some True, wakeLock = Some True,
        recordingJob = Some True, audioFocusRequest = True,
        trace = [StartForegroundService, WakeLockAcquire, RequestAudioFocus, NewAudioRecord,
                 AudioRecordStartRecording, LaunchRecordingLoop, PromiseResolve,
                 StartForegroundService, WakeLockAcquire, RequestAudioFocus, NewAudioRecord,
                 AudioRecordStartRecording, LaunchRecordingLoop, PromiseResolve]\<rparr>
   \<and> PromiseReject E_ALREADY_RECORDING
       \<notin> set (trace (run granted initial [Start, Focus AUDIOFOCUS_LOSS_TRANSIENT, Start]))
   \<and> count_list (trace (run granted initial [Start, Focus AUDIOFOCUS_LOSS_TRANSIENT, Start]))
         NewAudioRecord = 2
   \<and> count_list (trace (run granted initial [Start, Focus AUDIOFOCUS_LOSS_TRANSIENT, Start]))
         WakeLockAcquire = 2
   \<and> count_list (trace (run granted initial [Start, Focus AUDIOFOCUS_LOSS_TRANSIENT, Start]))
         AudioRecordRelease = 0
   \<and> count_list (trace (run granted initial [Start, Focus AUDIOFOCUS_LOSS_TRANSIENT, Start]))
         WakeLockRelease = 0"
proof -
  have first: "startRecording granted initial
      = \<lparr>isRecording = True, audioRecord = Some True, wakeLock = Some True,
          recordingJob = Some True, audioFocusRequest = True,
          trace = [StartForegroundService, WakeLockAcquire, RequestAudioFocus, NewAudioRecord,
                   AudioRecordStartRecording, LaunchRecordingLoop, PromiseResolve]\<rparr>"
    by (simp add: startRecording_def granted_def initial_def acquireWakeLock_def
        startForegroundService_def requestAudioFocus_def emit_def startRecordingLoop_def)
  have r: "run granted initial [Start, Focus AUDIOFOCUS_LOSS_TRANSIENT, Start]
     = \<lparr>isRecording = True, audioRecord = Some True, wakeLock = Some True,
        recordingJob = Some True, audioFocusRequest = True,
        trace = [StartForegroundService, WakeLockAcquire, RequestAudioFocus, NewAudioRecord,
                 AudioRecordStartRecording, LaunchRecordingLoop, PromiseResolve,
                 StartForegroundService, WakeLockAcquire, RequestAudioFocus, NewAudioRecord,
                 AudioRecordStartRecording, LaunchRecordingLoop, PromiseResolve]\<rparr>"
    unfolding run_def
    by (simp add: first)
      (simp add: startRecording_def granted_def acquireWakeLock_def
        startForegroundService_def requestAudioFocus_def emit_def startRecordingLoop_def)
  show ?thesis unfolding r by simp
qed

section \<open>Capture loop\<close>

text \<open>
  Claim C2, as the code has it. A read that fails mid-session (no \<open>AudioRecord\<close>, or a
  non-positive result) is not escalated: the loop body emits nothing, changes neither the
  buffer nor any field of the module, and the loop goes on with the next read.
\<close>

theorem failed_read_is_skipped:
  assumes "isRecording s" and "recordingJob s = Some True"
    and "audioRecord s = None \<or> fst (audioRecord_read buffer r) \<le> 0"
  shows "loopBody s buffer r = (True, buffer, s)
     \<and> recordingLoop s buffer (r # rs) = recordingLoop s buffer rs"
proof -
  have body: "loopBody s buffer r = (True, buffer, s)"
  proof (cases "audioRecord s")
    case None
    then show ?thesis by (simp add: loopBody_def)
  next
    case (Some h)
    with assms(3) have le: "fst (audioRecord_read buffer r) \<le> 0" by simp
    have "snd (audioRecord_read buffer r) = buffer"
      using le by (cases r) (auto simp: audioRecord_read_def Let_def min_def split: if_splits)
    with le Some show ?thesis
      by (cases "audioRecord_read buffer r") (simp add: loopBody_def)
  qed
  with assms(1,2) show ?thesis by simp
qed

theorem failed_read_is_skipped_witness:
  "isRecording (startRecording granted initial)
   \<and> recordingJob (startRecording granted initial) = Some True
   \<and> fst (audioRecord_read [9, 9, 9] (Failure (- 3))) \<le> 0
   \<and> loopBody (startRecording granted initial) [9, 9, 9] (Failure (- 3))
       = (True, [9, 9, 9], startRecording granted initial)
   \<and> recordingLoop (startRecording granted initial) [9, 9, 9] [Failure (- 3)]
       = startRecording granted initial"
proof -
  have s: "startRecording granted initial
      = \<lparr>isRecording = True, audioRecord = Some True, wakeLock = Some True,
          recordingJob = Some True, audioFocusRequest = True,
          trace = [StartForegroundService, WakeLockAcquire, RequestAudioFocus, NewAudioRecord,
                   AudioRecordStartRecording, LaunchRecordingLoop, PromiseResolve]\<rparr>"
    by (simp add: startRecording_def granted_def initial_def acquireWakeLock_def
        startForegroundService_def requestAudioFocus_def emit_def startRecordingLoop_def)
  have f: "fst (audioRecord_read [9, 9, 9] (Failure (- 3))) \<le> 0"
    by (simp add: audioRecord_read_def)
  show ?thesis
    using failed_read_is_skipped [of "startRecording granted initial" "[9, 9, 9]"
        "Failure (- 3)" "[]"] f
    by (simp add: s)
qed

text \<open>
  The statement of the claim itself, a forced stop and a notification after a failed read,
  fails on a recording session whose read returns \<open>ERROR_INVALID_OPERATION\<close>: the module
  is unchanged, still recording with its handle, nothing has been sent, and the next read
  is delivered as if nothing had happened.
\<close>

theorem failed_read_counterexample:
  "recordingLoop
     \<lparr>isRecording = True, audioRecord = Some True, wakeLock = Some True,
      recordingJob = Some True, audioFocusRequest = True, trace = []\<rparr>
     [9, 9, 9] [Failure (- 3)]
   = \<lparr>isRecording = True, audioRecord = Some True, wakeLock = Some True,
      recordingJob = Some True, audioFocusRequest = True, trace = []\<rparr>
   \<and> recordingLoop
     \<lparr>isRecording = True, audioRecord = Some True, wakeLock = Some True,
      recordingJob = Some True, audioFocusRequest = True, trace = []\<rparr>
     [9, 9, 9] [Failure (- 3), Samples [7, - 7]]
   = \<lparr>isRecording = True, audioRecord = Some True, wakeLock = Some True,
      recordingJob = Some True, audioFocusRequest = True,
      trace = [SendEvent ''BwD5/w=='' (Fin (7 / 32767))]\<rparr>"
  by (simp add: loopBody_def audioRecord_read_def encode_example rms_example emit_def)

text \<open>
  Claim C10. When a read delivers fewer samples than the buffer holds, the event is computed
  from exactly those samples: the data is the base64 text of their \<open>2 * readResult\<close>
  little-endian bytes and the amplitude is the clamped normalised RMS over them. What the
  buffer holds behind them appears in neither.
\<close>

theorem short_read_uses_fresh_samples_only:
  assumes "audioRecord s = Some h" and "xs \<noteq> []" and "length xs < length buffer"
  shows "loopBody s buffer (Samples xs)
     = (True, xs @ drop (length xs) buffer,
        emit (SendEvent (base64_encode (concat (map shortBytes xs)))
                        (Fin (spec_amplitude (map sint xs)))) s)
   \<and> length (concat (map shortBytes xs)) = 2 * length xs
   \<and> shortArrayToBase64 (xs @ drop (length xs) buffer) (int (length xs))
       = Inr (base64_encode (concat (map shortBytes xs)))
   \<and> calculateRMS (xs @ drop (length xs) buffer) (int (length xs))
       = Inr (Fin (spec_amplitude (map sint xs)))"
proof -
  have le: "length xs \<le> length (xs @ drop (length xs) buffer)" by simp
  have pos: "0 < length xs" using assms(2) by simp
  show ?thesis
    using loopBody_short_read [OF assms] length_bytes [of xs]
      shortArrayToBase64_take [OF le] calculateRMS_spec [OF pos le]
    by simp
qed

theorem short_read_uses_fresh_samples_only_witness:
  "audioRecord (startRecording granted initial) = Some True
   \<and> [7, - 7 :: short] \<noteq> [] \<and> length [7, - 7 :: short] < length [9, 9, 9 :: short]
   \<and> loopBody (startRecording granted initial) [9, 9, 9] (Samples [7, - 7])
       = (True, [7, - 7, 9],
          emit (SendEvent ''BwD5/w=='' (Fin (7 / 32767))) (startRecording granted initial))
   \<and> length (concat (map shortBytes [7, - 7])) = 4"
proof -
  have a: "audioRecord (startRecording granted initial) = Some True"
    by (simp add: startRecording_def granted_def initial_def acquireWakeLock_def
        startForegroundService_def requestAudioFocus_def emit_def startRecordingLoop_def)
  have b: "[7, - 7 :: short] \<noteq> []" by simp
  have c: "length [7, - 7 :: short] < length [9, 9, 9 :: short]" by simp
  have d: "spec_amplitude [7, - 7] = 7 / 32767"
    by (simp add: spec_amplitude_def spec_mean_square_def spec_clamp_def)
  have e: "base64_encode (shortBytes 7 @ shortBytes (- 7)) = ''BwD5/w==''"
    using encode_bytes_example by simp
  show ?thesis
    using short_read_uses_fresh_samples_only [OF a b c] a d e
    by simp
qed

section \<open>FormatConverter and GainStage (iOS)\<close>

text \<open>
  Claim C4. A block whose conversion fails is to be dropped without an event. Evaluated on
  the code: \<open>processAudioBuffer\<close> keeps the unconverted buffer as \<open>finalBuffer\<close> when the
  converter reports an error (or cannot be created) and goes on to send the event: with
  empty data and amplitude \<open>0\<close> for a float block, with the unconverted 48 kHz samples for
  an integer block.
\<close>

theorem failed_conversion_still_emits:
  "processAudioBuffer
     \<lparr>targetFormatOk = True, converterOk = True, outputBufferOk = True,
      convert = (\<lambda>b. None)\<rparr> 1
     \<lparr>format = \<lparr>commonFormat = PcmFormatFloat32, sampleRate = 48000, channelCount = 1,
                 interleaved = False\<rparr>,
      frameLength = 2, floatChannelData = Some [[1 / 2, - 1 / 4]], int16ChannelData = None\<rparr>
   = Some \<lparr>data = [], amplitude = Fin 0\<rparr>
   \<and> processAudioBuffer
     \<lparr>targetFormatOk = True, converterOk = False, outputBufferOk = ob, convert = cv\<rparr> 1
     \<lparr>format = \<lparr>commonFormat = PcmFormatInt16, sampleRate = 48000, channelCount = 1,
                 interleaved = True\<rparr>,
      frameLength = 2, floatChannelData = None, int16ChannelData = Some [[7, - 7]]\<rparr>
   = Some \<lparr>data = ''BwD5/w=='', amplitude = Fin (7 / 32767)\<rparr>"
proof -
  have a: "calculateRMS_ios \<lparr>format = \<lparr>commonFormat = PcmFormatInt16, sampleRate = 48000, channelCount = 1,
                 interleaved = True\<rparr>,
      frameLength = 2, floatChannelData = None, int16ChannelData = Some [[7, - 7]]\<rparr> = Fin (7 / 32767)"
    using calculateRMS_ios_spec [of "\<lparr>format = \<lparr>commonFormat = PcmFormatInt16, sampleRate = 48000, channelCount = 1,
                 interleaved = True\<rparr>,
      frameLength = 2, floatChannelData = None, int16ChannelData = Some [[7, - 7]]\<rparr>" "[7, - 7]" "[]"]
    by (simp add: spec_amplitude_def spec_mean_square_def spec_clamp_def)
  have b: "audioBufferToBase64 \<lparr>format = \<lparr>commonFormat = PcmFormatInt16, sampleRate = 48000, channelCount = 1,
                 interleaved = True\<rparr>,
      frameLength = 2, floatChannelData = None, int16ChannelData = Some [[7, - 7]]\<rparr> = ''BwD5/w==''"
    using encode_bytes_example
    by (simp add: audioBufferToBase64_def pointee_def upt_rec numeral_2_eq_2)
  have c: "processAudioBuffer
     \<lparr>targetFormatOk = True, converterOk = True, outputBufferOk = True,
      convert = (\<lambda>b. None)\<rparr> 1
     \<lparr>format = \<lparr>commonFormat = PcmFormatFloat32, sampleRate = 48000, channelCount = 1,
                 interleaved = False\<rparr>,
      frameLength = 2, floatChannelData = Some [[1 / 2, - 1 / 4]], int16ChannelData = None\<rparr>
   = Some \<lparr>data = [], amplitude = Fin 0\<rparr>"
    by (simp add: processAudioBuffer_def applyGain_def targetFormat_def calculateRMS_ios_def
        audioBufferToBase64_def)
  have d: "processAudioBuffer
     \<lparr>targetFormatOk = True, converterOk = False, outputBufferOk = ob, convert = cv\<rparr> 1
     \<lparr>format = \<lparr>commonFormat = PcmFormatInt16, sampleRate = 48000, channelCount = 1,
                 interleaved = True\<rparr>,
      frameLength = 2, floatChannelData = None, int16ChannelData = Some [[7, - 7]]\<rparr>
   = Some \<lparr>data = ''BwD5/w=='', amplitude = Fin (7 / 32767)\<rparr>"
    using a b by (simp add: processAudioBuffer_def applyGain_def targetFormat_def Let_def)
  from c d show ?thesis by blast
qed

text \<open>
  Claim C8. For every positive gain and every sample the gain stage yields the product
  clamped to \<open>[-1.0, 1.0]\<close>, of absolute value at most \<open>1\<close>; the stage does so for every
  frame of the buffer's first channel. With gain \<open>2.0\<close> the sample \<open>0.5\<close> becomes \<open>1.0\<close>,
  which the float-to-integer step of the spec turns into \<open>32767\<close>.
\<close>

theorem gain_stage_clamps:
  assumes "0 < g" and "floatChannelData buffer = Some (ptr # others)"
    and "frameLength buffer \<le> length ptr"
  shows "gainSample g s = spec_clamp (s * g) (- 1) 1 \<and> \<bar>gainSample g s\<bar> \<le> 1
   \<and> floatChannelData (applyGain g buffer)
       = Some ((map (\<lambda>s. spec_clamp (s * g) (- 1) 1) (take (frameLength buffer) ptr)
                @ drop (frameLength buffer) ptr) # others)
   \<and> gainSample 2 (1 / 2) = 1
   \<and> floatToInt16 (gainSample 2 (1 / 2)) = 32767
   \<and> sint (floatToInt16 (gainSample 2 (1 / 2))) = 32767"
proof -
  have l: "gainLoop g [0..<frameLength buffer] ptr
      = map (gainSample g) (take (frameLength buffer) ptr) @ drop (frameLength buffer) ptr"
    using gainLoop_upt [OF assms(3), of 0 g] by simp
  have m: "map (gainSample g) xs = map (\<lambda>s. spec_clamp (s * g) (- 1) 1) xs" for xs
    by (simp add: gainSample_clamp)
  have a: "floatChannelData (applyGain g buffer)
       = Some ((map (\<lambda>s. spec_clamp (s * g) (- 1) 1) (take (frameLength buffer) ptr)
                @ drop (frameLength buffer) ptr) # others)"
    by (simp add: applyGain_def assms(2) l m)
  have q: "gainSample 2 (1 / 2) = 1" by (simp add: gainSample_def)
  have "floatToInt16 1 = 32767" "sint (floatToInt16 1) = 32767"
    by (simp_all add: floatToInt16_def)
  with a q gainSample_clamp [of g s] gainSample_bound [of g s] show ?thesis by simp
qed

theorem gain_stage_clamps_witness:
  "(0 :: real) < 2
   \<and> gainSample 2 (3 / 4) = 1 \<and> gainSample 2 (- 3 / 4) = - 1 \<and> gainSample 2 (1 / 4) = 1 / 2
   \<and> floatChannelData
        (applyGain 2
           \<lparr>format = \<lparr>commonFormat = PcmFormatFloat32, sampleRate = 48000, channelCount = 1,
                       interleaved = False\<rparr>,
            frameLength = 2, floatChannelData = Some [[1 / 2, - 3 / 4, 1 / 8]],
            int16ChannelData = None\<rparr>)
       = Some [[1, - 1, 1 / 8]]
   \<and> floatToInt16 (gainSample 2 (1 / 2)) = 32767"
proof -
  let ?b = "\<lparr>format = \<lparr>commonFormat = PcmFormatFloat32, sampleRate = 48000, channelCount = 1,
                       interleaved = False\<rparr>,
            frameLength = 2, floatChannelData = Some [[1 / 2, - 3 / 4, 1 / 8 :: real]],
            int16ChannelData = None\<rparr>"
  have g: "(0 :: real) < 2" by simp
  have f: "floatChannelData ?b = Some ([1 / 2, - 3 / 4, 1 / 8] # [])" by simp
  have n: "frameLength ?b \<le> length [1 / 2, - 3 / 4, 1 / 8 :: real]" by simp
  show ?thesis
    using gain_stage_clamps [OF g f n, of "3 / 4"] gain_stage_clamps [OF g f n, of "- 3 / 4"]
      gain_stage_clamps [OF g f n, of "1 / 4"]
    by (simp add: spec_clamp_def numeral_2_eq_2)
qed

section \<open>FrameEncoder: round trip\<close>

text \<open>
  Claim C9. Decoding the base64 text of any byte sequence, the empty one included, gives
  back exactly that sequence; so decoding what \<open>shortArrayToBase64\<close> returns for the first
  \<open>n\<close> samples of a buffer gives back their little-endian bytes.
\<close>

theorem base64_decode_encode:
  "base64_decode (base64_encode bytes) = Some bytes
   \<and> (n \<le> length buffer \<longrightarrow>
        shortArrayToBase64 buffer (int n)
          = Inr (base64_encode (concat (map shortBytes (take n buffer))))
        \<and> base64_decode (base64_encode (concat (map shortBytes (take n buffer))))
          = Some (concat (map shortBytes (take n buffer))))"
proof -
  have round_trip: "base64_decode (base64_encode bs) = Some bs" for bs
  proof (induction bs rule: base64_encode.induct)
    case 1
    then show ?case by simp
  next
    case (2 a)
    define s1 s2 where "s1 = unat a div 4" and "s2 = (unat a mod 4) * 16"
    have lt: "s1 < 64" "s2 < 64"
      using sextets_lt [OF byte_lt [of a] byte_lt [of a] byte_lt [of a]] by (simp_all add: s1_def s2_def)
    have "s1 * 4 + s2 div 16 = unat a"
      unfolding s1_def s2_def using regroup(4) [OF byte_lt [of a] byte_lt [of a] byte_lt [of a]] .
    then have a: "(of_nat (s1 * 4 + s2 div 16) :: byte) = a" by simp
    have "base64_encode [a] = [b64char s1, b64char s2, CHR ''='', CHR ''='']"
      by (simp add: s1_def s2_def)
    then show ?case
      using decode_pad2 [of "b64char s1" s1 "b64char s2" s2] lt a
      by (simp only: b64val_b64char)
  next
    case (3 a b)
    define s1 s2 s3 where "s1 = unat a div 4" and "s2 = (unat a mod 4) * 16 + unat b div 16"
      and "s3 = (unat b mod 16) * 4"
    have lt: "s1 < 64" "s2 < 64" "s3 < 64"
      using sextets_lt [OF byte_lt [of a] byte_lt [of b] byte_lt [of b]]
      by (simp_all add: s1_def s2_def s3_def)
    have "s1 * 4 + s2 div 16 = unat a" "(s2 mod 16) * 16 + s3 div 4 = unat b"
      unfolding s1_def s2_def s3_def
      using regroup(1,5) [OF byte_lt [of a] byte_lt [of b] byte_lt [of b]] by blast+
    then have ab: "(of_nat (s1 * 4 + s2 div 16) :: byte) = a"
      "(of_nat ((s2 mod 16) * 16 + s3 div 4) :: byte) = b" by simp_all
    have "base64_encode [a, b] = [b64char s1, b64char s2, b64char s3, CHR ''='']"
      by (simp add: s1_def s2_def s3_def)
    then show ?case
      using decode_pad1 [of "b64char s1" s1 "b64char s2" s2 "b64char s3" s3] lt ab
      by (simp only: b64val_b64char b64char_not_pad not_False_eq_True)
  next
    case (4 a b c rest)
    define s1 s2 s3 s4 where "s1 = unat a div 4" and "s2 = (unat a mod 4) * 16 + unat b div 16"
      and "s3 = (unat b mod 16) * 4 + unat c div 64" and "s4 = unat c mod 64"
    have lt: "s1 < 64" "s2 < 64" "s3 < 64" "s4 < 64"
      using sextets_lt [OF byte_lt [of a] byte_lt [of b] byte_lt [of c]]
      by (simp_all add: s1_def s2_def s3_def s4_def)
    have "s1 * 4 + s2 div 16 = unat a" "(s2 mod 16) * 16 + s3 div 4 = unat b"
      "(s3 mod 4) * 64 + s4 = unat c"
      unfolding s1_def s2_def s3_def s4_def
      using regroup(1,2,3) [OF byte_lt [of a] byte_lt [of b] byte_lt [of c]] by blast+
    then have abc: "(of_nat (s1 * 4 + s2 div 16) :: byte) = a"
      "(of_nat ((s2 mod 16) * 16 + s3 div 4) :: byte) = b"
      "(of_nat ((s3 mod 4) * 64 + s4) :: byte) = c" by simp_all
    have e: "base64_encode (a # b # c # rest)
        = b64char s1 # b64char s2 # b64char s3 # b64char s4 # base64_encode rest"
      by (simp add: s1_def s2_def s3_def s4_def)
    show ?case
      unfolding e
      using decode_quad [of "b64char s1" s1 "b64char s2" s2 "b64char s3" s3 "b64char s4" s4
          "base64_encode rest"] lt abc 4
      by (simp only: b64val_b64char b64char_not_pad not_False_eq_True option.case)
  qed
  then show ?thesis using shortArrayToBase64_take by simp
qed

theorem base64_decode_encode_witness:
  "base64_encode [77, 97, 110] = ''TWFu'' \<and> base64_decode ''TWFu'' = Some [77, 97, 110]
   \<and> (2 :: nat) \<le> length [7, - 7, 9 :: short]
   \<and> shortArrayToBase64 [7, - 7, 9] 2 = Inr ''BwD5/w==''
   \<and> base64_decode ''BwD5/w=='' = Some [7, 0, 249, 255]"
proof -
  have t: "take 2 [7, - 7, 9 :: short] = [7, - 7]" by (simp add: numeral_2_eq_2)
  have n: "(2 :: nat) \<le> length [7, - 7, 9 :: short]" by simp
  from base64_decode_encode [of "[77, 97, 110]" 2 "[7, - 7, 9]"] n
  have a: "base64_decode (base64_encode [77, 97, 110]) = Some [77, 97, 110]"
    and b: "shortArrayToBase64 [7, - 7, 9] (int 2)
          = Inr (base64_encode (concat (map shortBytes (take 2 [7, - 7, 9]))))"
    and c: "base64_decode (base64_encode (concat (map shortBytes (take 2 [7, - 7, 9]))))
          = Some (concat (map shortBytes (take 2 [7, - 7, 9])))"
    by blast+
  from a have a': "base64_decode ''TWFu'' = Some [77, 97, 110]"
    by (simp only: man_example)
  from b have b': "shortArrayToBase64 [7, - 7, 9] 2 = Inr ''BwD5/w==''"
    by (simp only: t bytes_example encode_four_example of_nat_numeral)
  from c have c': "base64_decode ''BwD5/w=='' = Some [7, 0, 249, 255]"
    by (simp only: t bytes_example encode_four_example)
  from man_example a' n b' c' show ?thesis by blast
qed

end
